theory Spec2Isabelle
  imports Main
begin

section \<open>The dispatch queue of \<open>server/services/orchestrator.ts\<close>\<close>

text \<open>
  The class \<open>OrchestratorQueue\<close> keeps a backlog of tasks, admits them one after the
  other and drives each admitted task through \<open>executeTask\<close>. Its collaborators (the
  store, the retry service and the cost governor) are not part of the file: the store is
  modelled as a record of tables, every call to a collaborator can throw, and what it
  throws is chosen by the environment of the task.
\<close>

subsection \<open>Data\<close>

record AgentTask =
  runId :: string
  projectId :: string
  orgId :: string
  goal :: string
  mode :: string

text \<open>
  A thrown JavaScript value: an instance of \<open>Error\<close> with its message, or anything
  else. The handler of \<open>processQueue\<close> reads it with
  \<open>error instanceof Error ? error.message : "Unknown error"\<close>.
\<close>

datatype thrown = Error string | NotAnError

fun error_message :: "thrown \<Rightarrow> string" where
  "error_message (Error m) = m"
| "error_message NotAnError = ''Unknown error''"

text \<open>The \<open>usage\<close> object of an executor outcome; every field may be absent.\<close>

record usage =
  inputTokens :: "nat option"
  outputTokens :: "nat option"
  costEstimate :: "string option"

text \<open>The outcome of \<open>retryService.callWithRetry\<close>, with the fields \<open>executeTask\<close> reads.\<close>

record response =
  success :: bool
  content :: "string option"
  usage :: "usage option"
  usedProvider :: string
  attempts :: nat
  error :: "string option"

text \<open>The two shapes of \<open>outputJson\<close> that the queue writes.\<close>

datatype run_output =
  Result "string option" "usage option" string nat
| Failure string

record run =
  provider :: string
  model :: string
  status :: string
  outputJson :: "run_output option"
  run_costEstimate :: "string option"

text \<open>The partial object passed to \<open>storage.updateAgentRun\<close>: an absent field is kept.\<close>

record run_update =
  set_status :: "string option"
  set_outputJson :: "run_output option"
  set_costEstimate :: "string option"

record org =
  ownerUserId :: string

record message =
  msg_projectId :: string
  agentRunId :: string
  role :: string
  msg_content :: string

record usage_metadata =
  meta_agentRunId :: string
  originalProvider :: string
  meta_attempts :: nat

record usage_record =
  ur_orgId :: string
  ur_userId :: string
  ur_provider :: string
  ur_model :: string
  ur_inputTokens :: nat
  ur_outputTokens :: nat
  estimatedCostUsd :: string
  metadata :: usage_metadata

record audit_detail =
  ad_provider :: string
  ad_usedProvider :: string
  ad_model :: string
  ad_costEstimate :: string
  ad_attempts :: nat

record audit_log =
  al_orgId :: string
  al_userId :: "string option"
  action :: string
  target :: string
  detailJson :: audit_detail

record log_event =
  type :: string
  message :: string

text \<open>
  Everything a task can change outside the queue object: the tables of the store, the
  list of acknowledged \<open>updateAgentRun\<close> calls in the order they were made, the
  \<open>"log"\<close> events emitted (with their run id) and the calls of \<open>trackCost\<close>.
\<close>

record sys =
  runs :: "string \<rightharpoonup> run"
  orgs :: "string \<rightharpoonup> org"
  messages :: "message list"
  usageRecords :: "usage_record list"
  auditLogs :: "audit_log list"
  runUpdates :: "(string \<times> run_update) list"
  logs :: "(string \<times> log_event) list"
  costCalls :: "(string \<times> string) list"

subsection \<open>Calls that may throw\<close>

text \<open>
  An awaited call either returns a value or throws, and leaves the state it has reached.
  \<open>bindIO\<close> is \<open>await\<close> followed by the rest of the function body: a throw skips it.
\<close>

type_synonym 'a io = "sys \<Rightarrow> (thrown + 'a) \<times> sys"

definition returnIO :: "'a \<Rightarrow> 'a io" where
  "returnIO x s = (Inr x, s)"

definition throwIO :: "thrown \<Rightarrow> 'a io" where
  "throwIO e s = (Inl e, s)"

definition bindIO :: "'a io \<Rightarrow> ('a \<Rightarrow> 'b io) \<Rightarrow> 'b io" where
  "bindIO m f s = (case m s of (Inl e, s') \<Rightarrow> (Inl e, s') | (Inr x, s') \<Rightarrow> f x s')"

text \<open>
  \<open>this.emit("log", runId, event)\<close>: the event is delivered at once; the listeners are
  not part of the queue and are taken not to throw.
\<close>

definition emit :: "string \<Rightarrow> log_event \<Rightarrow> unit io" where
  "emit rid ev s = (Inr (), s\<lparr>logs := logs s @ [(rid, ev)]\<rparr>)"

subsection \<open>The store and the cost governor\<close>

text \<open>
  Modelled from the spec: \<open>server/storage\<close> and \<open>middleware/costGovernor\<close> are not
  among the sources. The spec gives their interface (\<open>getRun(id) \<rightarrow> Run | not-found\<close>,
  \<open>updateRun(id, partialFields) \<rightarrow> void\<close>, \<open>createMessage\<close>, \<open>getOrg\<close>,
  \<open>createUsageRecord\<close>, \<open>createAuditLog\<close>, \<open>trackCost(orgId, cost) \<rightarrow> void\<close>), says that
  a call is atomic and durable once acknowledged, and that the core never creates a Run.
  So a store call that throws changes nothing, an acknowledged update overwrites the given
  fields of the Run with that id, and an update for an id without a Run is recorded as a
  call and changes no Run. The first argument of each operation is what the call throws,
  if it throws.
\<close>

definition apply_update :: "run_update \<Rightarrow> run \<Rightarrow> run" where
  "apply_update u r =
     r\<lparr>status := (case set_status u of None \<Rightarrow> status r | Some v \<Rightarrow> v),
       outputJson := (case set_outputJson u of None \<Rightarrow> outputJson r | Some v \<Rightarrow> Some v),
       run_costEstimate :=
         (case set_costEstimate u of None \<Rightarrow> run_costEstimate r | Some v \<Rightarrow> Some v)\<rparr>"

definition getAgentRun :: "thrown option \<Rightarrow> string \<Rightarrow> run option io" where
  "getAgentRun f rid s = (case f of Some e \<Rightarrow> (Inl e, s) | None \<Rightarrow> (Inr (runs s rid), s))"

definition updateAgentRun :: "thrown option \<Rightarrow> string \<Rightarrow> run_update \<Rightarrow> unit io" where
  "updateAgentRun f rid u s =
     (case f of
        Some e \<Rightarrow> (Inl e, s)
      | None \<Rightarrow>
          (Inr (),
           s\<lparr>runs := (case runs s rid of
                        None \<Rightarrow> runs s
                      | Some r \<Rightarrow> (runs s)(rid \<mapsto> apply_update u r)),
             runUpdates := runUpdates s @ [(rid, u)]\<rparr>))"

definition createMessage :: "thrown option \<Rightarrow> message \<Rightarrow> unit io" where
  "createMessage f m s =
     (case f of Some e \<Rightarrow> (Inl e, s) | None \<Rightarrow> (Inr (), s\<lparr>messages := messages s @ [m]\<rparr>))"

definition getOrg :: "thrown option \<Rightarrow> string \<Rightarrow> org option io" where
  "getOrg f oid s = (case f of Some e \<Rightarrow> (Inl e, s) | None \<Rightarrow> (Inr (orgs s oid), s))"

definition createUsageRecord :: "thrown option \<Rightarrow> usage_record \<Rightarrow> unit io" where
  "createUsageRecord f u s =
     (case f of
        Some e \<Rightarrow> (Inl e, s)
      | None \<Rightarrow> (Inr (), s\<lparr>usageRecords := usageRecords s @ [u]\<rparr>))"

definition createAuditLog :: "thrown option \<Rightarrow> audit_log \<Rightarrow> unit io" where
  "createAuditLog f a s =
     (case f of Some e \<Rightarrow> (Inl e, s) | None \<Rightarrow> (Inr (), s\<lparr>auditLogs := auditLogs s @ [a]\<rparr>))"

text \<open>
  The state of the cost governor is not modelled: \<open>costCalls\<close> lists the invocations of
  \<open>trackCost\<close> with their arguments, those that throw included.
\<close>

definition trackCost :: "thrown option \<Rightarrow> string \<Rightarrow> string \<Rightarrow> unit io" where
  "trackCost f oid cost s =
     (case f of
        Some e \<Rightarrow> (Inl e, s\<lparr>costCalls := costCalls s @ [(oid, cost)]\<rparr>)
      | None \<Rightarrow> (Inr (), s\<lparr>costCalls := costCalls s @ [(oid, cost)]\<rparr>))"

subsection \<open>JavaScript operators used by \<open>executeTask\<close>\<close>

text \<open>
  \<open>x || d\<close> on an optional string: the default is taken when \<open>x\<close> is undefined or
  the empty string. On an optional number it is taken when \<open>x\<close> is undefined or 0.
\<close>

definition or_string :: "string option \<Rightarrow> string \<Rightarrow> string" where
  "or_string x d = (case x of None \<Rightarrow> d | Some v \<Rightarrow> (if v = [] then d else v))"

definition or_number :: "nat option \<Rightarrow> nat \<Rightarrow> nat" where
  "or_number x d = (case x of None \<Rightarrow> d | Some v \<Rightarrow> (if v = 0 then d else v))"

text \<open>\<open>response.usage?.f\<close>: undefined when \<open>usage\<close> is.\<close>

definition opt_chain :: "'a option \<Rightarrow> ('a \<Rightarrow> 'b option) \<Rightarrow> 'b option" where
  "opt_chain x f = (case x of None \<Rightarrow> None | Some v \<Rightarrow> f v)"

text \<open>A number in a template literal: its decimal digits.\<close>

fun string_of_nat :: "nat \<Rightarrow> string" where
  "string_of_nat n =
     (if n < 10 then [''0123456789'' ! n]
      else string_of_nat (n div 10) @ [''0123456789'' ! (n mod 10)])"

declare string_of_nat.simps [simp del]

text \<open>
  \<open>parseFloat\<close> skips leading white space, reads the longest prefix that is a decimal
  literal (a sign, then \<open>Infinity\<close> or digits with an optional fraction and an optional
  exponent) and gives NaN when there is none. The model keeps the literal exact, as
  \<open>\<plusminus> m \<times> 10\<^sup>e\<close>. A character of a string stands for the UTF-16 code unit
  of the same code, so the strings of the model are the JavaScript strings whose code
  units are below 256; the white space and line terminators of JavaScript in that range
  are the codes 9 to 13, 32 and 160 (the no-break space).
\<close>

datatype number = NaN | Infinity bool | Decimal bool nat int

definition isWhiteSpace :: "char \<Rightarrow> bool" where
  "isWhiteSpace c = (of_char c \<in> {9, 10, 11, 12, 13, 32, 160 :: nat})"

definition isDigit :: "char \<Rightarrow> bool" where
  "isDigit c = (48 \<le> (of_char c :: nat) \<and> (of_char c :: nat) \<le> 57)"

definition digits_value :: "string \<Rightarrow> nat" where
  "digits_value ds = foldl (\<lambda>a c. 10 * a + (of_char c - 48)) 0 ds"

definition strip_sign :: "string \<Rightarrow> bool \<times> string" where
  "strip_sign t =
     (case t of
        [] \<Rightarrow> (False, t)
      | c # r \<Rightarrow>
          if c = CHR ''-'' then (True, r) else if c = CHR ''+'' then (False, r) else (False, t))"

definition exponentPart :: "string \<Rightarrow> int" where
  "exponentPart t =
     (case t of
        [] \<Rightarrow> 0
      | c # r \<Rightarrow>
          if c = CHR ''e'' \<or> c = CHR ''E'' then
            (case strip_sign r of
               (neg, d) \<Rightarrow>
                 (let ds = takeWhile isDigit d
                  in if ds = [] then 0
                     else if neg then - int (digits_value ds) else int (digits_value ds)))
          else 0)"

definition parseFloat :: "string \<Rightarrow> number" where
  "parseFloat str =
     (case strip_sign (dropWhile isWhiteSpace str) of
        (neg, u) \<Rightarrow>
          if take 8 u = ''Infinity'' then Infinity neg
          else
            (let ip = takeWhile isDigit u;
                 r1 = dropWhile isDigit u;
                 dot = (r1 \<noteq> [] \<and> hd r1 = CHR ''.'');
                 fp = (if dot then takeWhile isDigit (tl r1) else []);
                 r2 = (if dot then dropWhile isDigit (tl r1) else r1)
             in if ip = [] \<and> fp = [] then NaN
                else Decimal neg (digits_value (ip @ fp)) (exponentPart r2 - int (length fp))))"

text \<open>
  \<open>x > 0\<close> for the double that \<open>parseFloat\<close> returns: NaN and negative values are not,
  and a positive literal is unless it rounds to zero; rounding to the nearest double, as
  the runtime of Node does, gives zero up to \<open>2\<^sup>-\<^sup>1\<^sup>0\<^sup>7\<^sup>5\<close>.
\<close>

fun gt_zero :: "number \<Rightarrow> bool" where
  "gt_zero NaN = False"
| "gt_zero (Infinity neg) = (\<not> neg)"
| "gt_zero (Decimal neg m e) =
     (\<not> neg \<and> m \<noteq> 0 \<and> (0 \<le> e \<or> (10::int) ^ nat (- e) < int m * 2 ^ 1075))"

subsection \<open>The environment of one task\<close>

text \<open>
  What the collaborators do while one task is processed: for each awaited call of
  \<open>executeTask\<close> and of the handler in \<open>processQueue\<close>, in source order, what it throws
  (if it throws); for the retry service, the \<open>onProgress\<close> calls it makes and the outcome
  it returns.
\<close>

record env =
  getAgentRun_throws :: "thrown option"
  setRunning_throws :: "thrown option"
  userMessage_throws :: "thrown option"
  onProgress_calls :: "(nat \<times> string \<times> string option) list"
  callWithRetry_throws :: "thrown option"
  callWithRetry_returns :: response
  assistantMessage_throws :: "thrown option"
  setCompleted_throws :: "thrown option"
  trackCost_throws :: "thrown option"
  getOrg_throws :: "thrown option"
  createUsageRecord_throws :: "thrown option"
  createAuditLog_throws :: "thrown option"
  setFailed_throws :: "thrown option"

subsection \<open>\<open>executeTask\<close>\<close>

text \<open>
  The callback given to \<open>callWithRetry\<close> (lines 101 to 113): \<open>if (nextProvider)\<close> holds
  for a provider name that is neither undefined nor empty.
\<close>

definition onProgress :: "string \<Rightarrow> nat \<times> string \<times> string option \<Rightarrow> unit io" where
  "onProgress rid call =
     (case call of
        (attempt, err, nextProvider) \<Rightarrow>
          if nextProvider \<noteq> None \<and> nextProvider \<noteq> Some [] then
            emit rid \<lparr>type = ''warning'',
              message = ''Provider failed, falling back to '' @ the nextProvider
                @ ''. Error: '' @ err\<rparr>
          else
            emit rid \<lparr>type = ''warning'',
              message = ''Retry attempt '' @ string_of_nat attempt @ ''. Error: '' @ err\<rparr>)"

fun forEachIO :: "('a \<Rightarrow> unit io) \<Rightarrow> 'a list \<Rightarrow> unit io" where
  "forEachIO f [] = returnIO ()"
| "forEachIO f (x # xs) = bindIO (f x) (\<lambda>_. forEachIO f xs)"

text \<open>
  The awaited \<open>retryService.callWithRetry(provider, goal, model, callback)\<close> as the
  queue sees it: the callback runs for each progress call, then the promise rejects or
  resolves with an outcome.
\<close>

definition await_callWithRetry :: "env \<Rightarrow> string \<Rightarrow> response io" where
  "await_callWithRetry e rid =
     bindIO (forEachIO (onProgress rid) (onProgress_calls e)) (\<lambda>_.
       case callWithRetry_throws e of
         Some x \<Rightarrow> throwIO x
       | None \<Rightarrow> returnIO (callWithRetry_returns e))"

text \<open>Lines 135 to 189 of \<open>executeTask\<close>, given the run and the outcome.\<close>

definition record_success :: "env \<Rightarrow> AgentTask \<Rightarrow> run \<Rightarrow> response \<Rightarrow> unit io" where
  "record_success e task run response =
     (let costEstimate = or_string (opt_chain (usage response) costEstimate) ''0'' in
      bindIO (updateAgentRun (setCompleted_throws e) (runId task)
                \<lparr>set_status = Some ''completed'',
                  set_outputJson = Some (Result (content response) (usage response)
                                           (usedProvider response) (attempts response)),
                  set_costEstimate = Some costEstimate\<rparr>) (\<lambda>_.
      bindIO (if gt_zero (parseFloat costEstimate)
              then trackCost (trackCost_throws e) (orgId task) costEstimate
              else returnIO ()) (\<lambda>_.
      bindIO (getOrg (getOrg_throws e) (orgId task)) (\<lambda>org.
      bindIO (case org of
                None \<Rightarrow> returnIO ()
              | Some owner \<Rightarrow>
                  createUsageRecord (createUsageRecord_throws e)
                    \<lparr>ur_orgId = orgId task,
                      ur_userId = ownerUserId owner,
                      ur_provider = usedProvider response,
                      ur_model = model run,
                      ur_inputTokens = or_number (opt_chain (usage response) inputTokens) 0,
                      ur_outputTokens = or_number (opt_chain (usage response) outputTokens) 0,
                      estimatedCostUsd = costEstimate,
                      metadata = \<lparr>meta_agentRunId = runId task,
                                   originalProvider = provider run,
                                   meta_attempts = attempts response\<rparr>\<rparr>) (\<lambda>_.
      bindIO (emit (runId task)
                \<lparr>type = ''success'',
                  message = ''Agent run completed. Cost: $'' @ costEstimate\<rparr>) (\<lambda>_.
      createAuditLog (createAuditLog_throws e)
        \<lparr>al_orgId = orgId task,
          al_userId = None,
          action = ''agent_run_completed'',
          target = runId task,
          detailJson = \<lparr>ad_provider = provider run,
                         ad_usedProvider = usedProvider response,
                         ad_model = model run,
                         ad_costEstimate = costEstimate,
                         ad_attempts = attempts response\<rparr>\<rparr>))))))"

text \<open>Lines 116 to 133 of \<open>executeTask\<close>, then \<open>record_success\<close>.\<close>

definition handle_response :: "env \<Rightarrow> AgentTask \<Rightarrow> run \<Rightarrow> response \<Rightarrow> unit io" where
  "handle_response e task run response =
     (if \<not> success response then
        throwIO (Error (or_string (error response) ''Provider call failed''))
      else
        bindIO (if usedProvider response \<noteq> provider run
                then emit (runId task)
                       \<lparr>type = ''info'',
                         message = ''Used fallback provider: '' @ usedProvider response
                           @ '' ('' @ string_of_nat (attempts response)
                           @ '' total attempts)''\<rparr>
                else returnIO ()) (\<lambda>_.
        bindIO (createMessage (assistantMessage_throws e)
                  \<lparr>msg_projectId = projectId task, agentRunId = runId task,
                    role = ''assistant'',
                    msg_content = or_string (content response) []\<rparr>) (\<lambda>_.
        record_success e task run response)))"

text \<open>Lines 71 to 114 of \<open>executeTask\<close>, then \<open>handle_response\<close>.\<close>

definition executeTask :: "env \<Rightarrow> AgentTask \<Rightarrow> unit io" where
  "executeTask e task =
     bindIO (getAgentRun (getAgentRun_throws e) (runId task)) (\<lambda>found.
       case found of
         None \<Rightarrow> throwIO (Error ''Agent run not found'')
       | Some run \<Rightarrow>
           bindIO (emit (runId task)
                     \<lparr>type = ''info'',
                       message = ''Starting agent run with '' @ provider run
                         @ '' ('' @ model run @ '')''\<rparr>) (\<lambda>_.
           bindIO (updateAgentRun (setRunning_throws e) (runId task)
                     \<lparr>set_status = Some ''running'', set_outputJson = None,
                       set_costEstimate = None\<rparr>) (\<lambda>_.
           bindIO (createMessage (userMessage_throws e)
                     \<lparr>msg_projectId = projectId task, agentRunId = runId task,
                       role = ''user'', msg_content = goal task\<rparr>) (\<lambda>_.
           bindIO (emit (runId task)
                     \<lparr>type = ''info'',
                       message = ''Calling '' @ provider run @ '' with model '' @ model run
                         @ '' (with retry/fallback)...''\<rparr>) (\<lambda>_.
           bindIO (await_callWithRetry e (runId task)) (\<lambda>response.
             handle_response e task run response))))))"

subsection \<open>The queue object\<close>

text \<open>
  The four fields of \<open>OrchestratorQueue\<close>, and around them what the event loop holds
  for it: the state outside the queue, the number of \<open>setTimeout\<close> callbacks not yet
  run, the local \<open>task\<close> of every \<open>processQueue\<close> call that is suspended at its
  \<open>await this.executeTask(task)\<close>, and the exceptions that have left a
  \<open>processQueue\<close> call. Nothing awaits the promise of \<open>processQueue\<close> (lines 32 and
  66), so such an exception is a promise rejection that nothing handles. \<open>admitted\<close> is
  a history variable: the tasks taken from the backlog, in the order they were taken.
\<close>

record world =
  queue :: "AgentTask list"
  processing :: bool
  concurrency :: int
  activeCount :: int
  outside :: sys
  timers :: nat
  executing :: "AgentTask list"
  rejections :: "thrown list"
  admitted :: "AgentTask list"

text \<open>\<open>new OrchestratorQueue()\<close>, in front of a given store.\<close>

definition initial :: "sys \<Rightarrow> world" where
  "initial s =
     \<lparr>queue = [], processing = False, concurrency = 2, activeCount = 0, outside = s,
      timers = 0, executing = [], rejections = [], admitted = []\<rparr>"

text \<open>
  \<open>processQueue\<close> up to its \<open>await\<close> (lines 35 to 49). JavaScript runs this part
  without interruption: nothing else reads or writes the fields in between.
\<close>

definition processQueue :: "world \<Rightarrow> world" where
  "processQueue w =
     (if processing w \<or> activeCount w \<ge> concurrency w then w
      else
        (case queue w of
           [] \<Rightarrow> w
         | task # rest \<Rightarrow>
             w\<lparr>queue := rest,
               activeCount := activeCount w + 1,
               processing := True,
               executing := executing w @ [task],
               admitted := admitted w @ [task]\<rparr>))"

text \<open>The \<open>try\<close> and \<open>catch\<close> blocks of \<open>processQueue\<close> (lines 48 to 59).\<close>

definition try_executeTask :: "env \<Rightarrow> AgentTask \<Rightarrow> unit io" where
  "try_executeTask e task s =
     (case executeTask e task s of
        (Inr u, s') \<Rightarrow> (Inr u, s')
      | (Inl err, s') \<Rightarrow>
          bindIO (emit (runId task)
                    \<lparr>type = ''error'',
                      message = ''Task failed: '' @ error_message err\<rparr>) (\<lambda>_.
          updateAgentRun (setFailed_throws e) (runId task)
            \<lparr>set_status = Some ''failed'',
              set_outputJson = Some (Failure (error_message err)),
              set_costEstimate = None\<rparr>) s')"

text \<open>
  \<open>processQueue\<close> from its \<open>await\<close> to its end (lines 49 to 68), for the suspended
  call whose task is \<open>task\<close>: the outcome of \<open>try\<close> and \<open>catch\<close>, then the
  \<open>finally\<close> block, which runs also when the handler throws. An exception of the
  handler leaves the call after the \<open>finally\<close> block and is added to \<open>rejections\<close>;
  what the process does with it is in \<open>node_step\<close>.
\<close>

definition processQueue_resume :: "env \<Rightarrow> AgentTask \<Rightarrow> world \<Rightarrow> world" where
  "processQueue_resume e task w =
     (case try_executeTask e task (outside w) of
        (r, s') \<Rightarrow>
          (let w1 = w\<lparr>outside := s',
                       activeCount := activeCount w - 1,
                       processing := False\<rparr>;
               w2 = (if queue w1 \<noteq> [] then w1\<lparr>timers := timers w1 + 1\<rparr> else w1)
           in case r of
                Inl x \<Rightarrow> w2\<lparr>rejections := rejections w2 @ [x]\<rparr>
              | Inr _ \<Rightarrow> w2))"

text \<open>\<open>enqueue\<close> (lines 29 to 33).\<close>

definition enqueue :: "AgentTask \<Rightarrow> world \<Rightarrow> world" where
  "enqueue task w =
     processQueue
       (w\<lparr>queue := queue w @ [task],
          outside := snd (emit (runId task)
                            \<lparr>type = ''info'', message = ''Task queued''\<rparr> (outside w))\<rparr>)"

text \<open>
  What can happen to the queue: a caller enqueues a task; the task of the \<open>i\<close>-th
  suspended \<open>processQueue\<close> call is processed to its end in some environment; a timer
  set by \<open>setTimeout\<close> fires. The effects of a task on the state outside are applied
  when it settles: the queue itself makes no other change to that state in between,
  except for the \<open>Task queued\<close> events of \<open>enqueue\<close>.
\<close>

datatype event = Enqueue AgentTask | Settle nat env | Timeout

fun step :: "world \<Rightarrow> event \<Rightarrow> world" where
  "step w (Enqueue task) = enqueue task w"
| "step w (Settle i e) =
     (if i < length (executing w)
      then processQueue_resume e (executing w ! i)
             (w\<lparr>executing := take i (executing w) @ drop (Suc i) (executing w)\<rparr>)
      else w)"
| "step w Timeout =
     (if 0 < timers w then processQueue (w\<lparr>timers := timers w - 1\<rparr>) else w)"

definition run_events :: "sys \<Rightarrow> event list \<Rightarrow> world" where
  "run_events s evs = foldl step (initial s) evs"

text \<open>
  The process around the queue. Node 15 and later end the process on a promise rejection
  that nothing handles; the deployment runs \<open>node dist/index.cjs\<close> on the image
  \<open>node:20-alpine\<close>, and the sources install no handler for it. The rejection is
  reported when the current turn of the event loop is over, before any timer of 100 ms
  fires. So once an exception has left \<open>processQueue\<close>, no later event reaches the
  queue. \<open>step\<close> and \<open>run_events\<close> are the queue object alone and go on after such an
  exception; \<open>node_step\<close> and \<open>node_run\<close> are the queue inside the process.
\<close>

definition node_step :: "world \<Rightarrow> event \<Rightarrow> world" where
  "node_step w ev = (if rejections w \<noteq> [] then w else step w ev)"

definition node_run :: "sys \<Rightarrow> event list \<Rightarrow> world" where
  "node_run s evs = foldl node_step (initial s) evs"


subsection \<open>The retry and fallback executor\<close>

text \<open>
  Modelled from the spec: \<open>services/retryService\<close>, which defines \<open>callWithRetry\<close>, is
  not among the sources. The spec says that the executor attempts the primary provider,
  retries the same provider on a transient failure up to a configured attempt ceiling,
  advances to the next provider in a fixed fallback order when the ceiling is exhausted
  (a terminal error exhausts the provider at once), and stops at the first success or
  when all providers are exhausted; \<open>attempts\<close> counts the tries over all providers, and
  the cost estimate comes from the usage and the pricing of the provider that served the
  request. The transport is a parameter: its answer may depend on how many attempts were
  made before. The progress callback is left out.
\<close>

datatype call_result = Served string nat nat | TransientError string | TerminalError string

fun is_served :: "call_result \<Rightarrow> bool" where
  "is_served (Served c i o') = True"
| "is_served _ = False"

fun is_transient :: "call_result \<Rightarrow> bool" where
  "is_transient (TransientError err) = True"
| "is_transient _ = False"

record executor =
  transport :: "string \<Rightarrow> string \<Rightarrow> string \<Rightarrow> nat \<Rightarrow> call_result"
  pricing :: "string \<Rightarrow> string \<Rightarrow> nat \<Rightarrow> nat \<Rightarrow> string"
  fallbackOrder :: "string list"
  ceiling :: nat

text \<open>
  The tries on one provider: \<open>left\<close> tries remain before the ceiling, \<open>n\<close> attempts were
  made so far. A transient failure is retried while tries remain.
\<close>

fun try_provider ::
  "executor \<Rightarrow> string \<Rightarrow> string \<Rightarrow> string \<Rightarrow> nat \<Rightarrow> nat \<Rightarrow> (string \<times> call_result) list" where
  "try_provider ex prompt mdl p 0 n = []"
| "try_provider ex prompt mdl p (Suc left) n =
     (case transport ex p prompt mdl n of
        TransientError err \<Rightarrow>
          (p, TransientError err) # try_provider ex prompt mdl p left (Suc n)
      | r \<Rightarrow> [(p, r)])"

text \<open>The tries over the providers in order: the next provider is tried unless one served.\<close>

fun try_providers ::
  "executor \<Rightarrow> string \<Rightarrow> string \<Rightarrow> string list \<Rightarrow> nat \<Rightarrow> (string \<times> call_result) list" where
  "try_providers ex prompt mdl [] n = []"
| "try_providers ex prompt mdl (p # ps) n =
     (let tried = try_provider ex prompt mdl p (ceiling ex) n
      in if tried \<noteq> [] \<and> is_served (snd (last tried)) then tried
         else tried @ try_providers ex prompt mdl ps (n + length tried))"

definition attempts_made ::
  "executor \<Rightarrow> string \<Rightarrow> string \<Rightarrow> string \<Rightarrow> (string \<times> call_result) list" where
  "attempts_made ex primaryProvider prompt mdl =
     try_providers ex prompt mdl (primaryProvider # fallbackOrder ex) 0"

definition failure_outcome :: "nat \<Rightarrow> string option \<Rightarrow> response" where
  "failure_outcome n err =
     \<lparr>success = False, content = None, usage = None, usedProvider = [], attempts = n,
      error = err\<rparr>"

definition callWithRetry :: "executor \<Rightarrow> string \<Rightarrow> string \<Rightarrow> string \<Rightarrow> response" where
  "callWithRetry ex primaryProvider prompt mdl =
     (let tried = attempts_made ex primaryProvider prompt mdl
      in if tried = [] then failure_outcome 0 None
         else
           (case last tried of
              (p, Served c i o') \<Rightarrow>
                \<lparr>success = True, content = Some c,
                  usage = Some \<lparr>inputTokens = Some i, outputTokens = Some o',
                                costEstimate = Some (pricing ex p mdl i o')\<rparr>,
                  usedProvider = p, attempts = length tried, error = None\<rparr>
            | (p, TransientError err) \<Rightarrow> failure_outcome (length tried) (Some err)
            | (p, TerminalError err) \<Rightarrow> failure_outcome (length tried) (Some err)))"

subsection \<open>Notions used in the statements\<close>

text \<open>The three updates that the queue passes to \<open>updateAgentRun\<close>.\<close>

definition running_update :: run_update where
  "running_update =
     \<lparr>set_status = Some ''running'', set_outputJson = None, set_costEstimate = None\<rparr>"


definition failed_update :: "thrown \<Rightarrow> run_update" where
  "failed_update x =
     \<lparr>set_status = Some ''failed'', set_outputJson = Some (Failure (error_message x)),
      set_costEstimate = None\<rparr>"

text \<open>The event that the handler of \<open>processQueue\<close> emits for a caught exception.\<close>

definition failed_event :: "thrown \<Rightarrow> log_event" where
  "failed_event x = \<lparr>type = ''error'', message = ''Task failed: '' @ error_message x\<rparr>"

text \<open>
  The invariant of the queue fields: the constant is 2, \<open>activeCount\<close> counts the
  suspended \<open>processQueue\<close> calls, \<open>processing\<close> is set exactly when there is one, and
  there is at most one.
\<close>

definition slot_inv :: "world \<Rightarrow> bool" where
  "slot_inv w =
     (concurrency w = 2 \<and> activeCount w = int (length (executing w))
      \<and> processing w = (executing w \<noteq> []) \<and> length (executing w) \<le> 1)"

subsection \<open>Example data\<close>

definition run1 :: run where
  "run1 = \<lparr>provider = ''openai'', model = ''gpt-4o'', status = ''queued'',
            outputJson = None, run_costEstimate = None\<rparr>"

definition store1 :: sys where
  "store1 =
     \<lparr>runs = [''run-1'' \<mapsto> run1], orgs = [''org-1'' \<mapsto> \<lparr>ownerUserId = ''user-1''\<rparr>],
      messages = [], usageRecords = [], auditLogs = [], runUpdates = [], logs = [],
      costCalls = []\<rparr>"

text \<open>A task for the run of \<open>store1\<close>, one for a run id without a record, and one for an
  organization that the store does not have.\<close>

definition task1 :: AgentTask where
  "task1 = \<lparr>runId = ''run-1'', projectId = ''proj-1'', orgId = ''org-1'',
             goal = ''Summarise the report'', mode = ''single''\<rparr>"

definition task2 :: AgentTask where
  "task2 = \<lparr>runId = ''run-2'', projectId = ''proj-1'', orgId = ''org-1'',
             goal = ''Translate the summary'', mode = ''single''\<rparr>"

definition task3 :: AgentTask where
  "task3 = \<lparr>runId = ''run-1'', projectId = ''proj-1'', orgId = ''org-9'',
             goal = ''Summarise the report'', mode = ''single''\<rparr>"

definition answer :: response where
  "answer =
     \<lparr>success = True, content = Some ''Done'',
      usage = Some \<lparr>inputTokens = Some 12, outputTokens = Some 30,
                    costEstimate = Some ''0.0021''\<rparr>,
      usedProvider = ''openai'', attempts = 1, error = None\<rparr>"

definition refusal :: response where
  "refusal =
     \<lparr>success = False, content = None, usage = None, usedProvider = [], attempts = 6,
      error = Some ''All providers failed''\<rparr>"

text \<open>An environment in which nothing throws and the executor answers at its first try.\<close>

definition calm :: env where
  "calm =
     \<lparr>getAgentRun_throws = None, setRunning_throws = None, userMessage_throws = None,
      onProgress_calls = [], callWithRetry_throws = None, callWithRetry_returns = answer,
      assistantMessage_throws = None, setCompleted_throws = None, trackCost_throws = None,
      getOrg_throws = None, createUsageRecord_throws = None, createAuditLog_throws = None,
      setFailed_throws = None\<rparr>"

text \<open>An executor whose primary provider times out twice, and one whose primary provider
  always times out.\<close>

definition flaky :: executor where
  "flaky =
     \<lparr>transport = (\<lambda>p prompt mdl n.
        if p = ''openai'' \<and> n < 2 then TransientError ''timeout'' else Served ''Done'' 12 30),
      pricing = (\<lambda>p mdl i o'. ''0.0021''),
      fallbackOrder = [''anthropic''], ceiling = 3\<rparr>"

definition down :: executor where
  "down =
     \<lparr>transport = (\<lambda>p prompt mdl n.
        if p = ''openai'' then TransientError ''timeout'' else Served ''Done'' 12 30),
      pricing = (\<lambda>p mdl i o'. ''0.0021''),
      fallbackOrder = [''anthropic''], ceiling = 3\<rparr>"

section \<open>Properties of the queue\<close>

lemmas io_defs = bindIO_def returnIO_def throwIO_def emit_def getAgentRun_def
  updateAgentRun_def createMessage_def getOrg_def createUsageRecord_def createAuditLog_def
  trackCost_def

lemmas example_defs = run1_def store1_def task1_def task2_def task3_def answer_def
  refusal_def calm_def

lemmas queue_defs = run_events_def initial_def enqueue_def processQueue_def
  processQueue_resume_def try_executeTask_def

lemmas task_defs = executeTask_def handle_response_def record_success_def
  await_callWithRetry_def

lemmas parseFloat_defs = parseFloat_def strip_sign_def isWhiteSpace_def isDigit_def
  digits_value_def exponentPart_def or_string_def or_number_def opt_chain_def

subsection \<open>Admission\<close>

lemma slot_inv_initial: "slot_inv (initial s)"
  by (simp add: slot_inv_def initial_def)

lemma slot_inv_processQueue: "slot_inv w \<Longrightarrow> slot_inv (processQueue w)"
  by (auto simp: slot_inv_def processQueue_def split: list.splits)

lemma slot_inv_enqueue: "slot_inv w \<Longrightarrow> slot_inv (enqueue task w)"
  unfolding enqueue_def by (rule slot_inv_processQueue) (simp add: slot_inv_def)

lemma slot_inv_resume:
  assumes "slot_inv w" "i < length (executing w)"
  shows "slot_inv (processQueue_resume e task (w\<lparr>executing := take i (executing w) @ drop (Suc i) (executing w)\<rparr>))"
proof -
  from assms have one: "length (executing w) = 1" and i0: "i = 0"
    by (auto simp: slot_inv_def)
  then have "take i (executing w) @ drop (Suc i) (executing w) = []" by simp
  with assms one show ?thesis
    by (simp add: slot_inv_def processQueue_resume_def Let_def split: prod.splits sum.splits)
qed

lemma slot_inv_step: "slot_inv w \<Longrightarrow> slot_inv (step w ev)"
proof (cases ev)
  case (Enqueue task)
  assume "slot_inv w"
  with Enqueue show ?thesis by (simp add: slot_inv_enqueue)
next
  case (Settle i e)
  assume "slot_inv w"
  with Settle show ?thesis by (simp add: slot_inv_resume)
next
  case Timeout
  assume "slot_inv w"
  then have "slot_inv (w\<lparr>timers := timers w - 1\<rparr>)" by (simp add: slot_inv_def)
  then have "slot_inv (processQueue (w\<lparr>timers := timers w - 1\<rparr>))" by (rule slot_inv_processQueue)
  with Timeout \<open>slot_inv w\<close> show ?thesis by simp
qed

lemma slot_inv_foldl: "slot_inv w \<Longrightarrow> slot_inv (foldl step w evs)"
  by (induction evs arbitrary: w) (simp_all add: slot_inv_step)

lemma slot_inv_run_events: "slot_inv (run_events s evs)"
  unfolding run_events_def by (rule slot_inv_foldl) (rule slot_inv_initial)

text \<open>
  C10: at every point at most one task is executing, whatever the concurrency constant:
  \<open>processing\<close> is set exactly while a task executes, \<open>processQueue\<close> admits nothing
  while it is set, and \<open>activeCount\<close> never exceeds 1.
\<close>

theorem at_most_one_executing:
  "length (executing (run_events s evs)) \<le> 1
   \<and> activeCount (run_events s evs) \<le> 1
   \<and> processing (run_events s evs) = (executing (run_events s evs) \<noteq> [])
   \<and> (processing w \<longrightarrow> processQueue w = w)"
  using slot_inv_run_events [of s evs] by (simp add: slot_inv_def processQueue_def)

theorem at_most_one_executing_witness:
  "executing (run_events store1 [Enqueue task1, Enqueue task2]) = [task1]
   \<and> queue (run_events store1 [Enqueue task1, Enqueue task2]) = [task2]
   \<and> activeCount (run_events store1 [Enqueue task1, Enqueue task2]) \<le> 1
   \<and> processing (run_events store1 [Enqueue task1, Enqueue task2])
   \<and> processQueue (run_events store1 [Enqueue task1, Enqueue task2])
       = run_events store1 [Enqueue task1, Enqueue task2]"
proof -
  have "executing (run_events store1 [Enqueue task1, Enqueue task2]) = [task1]
    \<and> queue (run_events store1 [Enqueue task1, Enqueue task2]) = [task2]"
    by (simp add: queue_defs emit_def)
  with at_most_one_executing [of store1 "[Enqueue task1, Enqueue task2]"
      "run_events store1 [Enqueue task1, Enqueue task2]"]
  show ?thesis by simp
qed

text \<open>
  C4: for every sequence of enqueue calls, completions and timers, the number of tasks
  in execution (admitted, not yet settled) never exceeds the concurrency constant,
  which is 2.
\<close>

theorem executing_within_concurrency:
  "concurrency (run_events s evs) = 2
   \<and> int (length (executing (run_events s evs))) \<le> concurrency (run_events s evs)
   \<and> activeCount (run_events s evs) \<le> concurrency (run_events s evs)"
  using slot_inv_run_events [of s evs] by (simp add: slot_inv_def)

theorem executing_within_concurrency_witness:
  "int (length (executing (run_events store1 [Enqueue task1, Enqueue task2, Enqueue task3])))
     \<le> 2"
  using executing_within_concurrency [of store1 "[Enqueue task1, Enqueue task2, Enqueue task3]"]
  by simp







subsection \<open>One task\<close>

lemma emit_appends: "\<exists>ev'. emit rid ev s = (Inr (), s\<lparr>logs := logs s @ [(rid, ev')]\<rparr>)"
  unfolding emit_def by blast

lemma onProgress_emits: "\<exists>ev. onProgress rid c s = (Inr (), s\<lparr>logs := logs s @ [(rid, ev)]\<rparr>)"
  by (cases c) (simp add: onProgress_def emit_appends)

lemma forEach_onProgress:
  "\<exists>ls. forEachIO (onProgress rid) cs s = (Inr (), s\<lparr>logs := logs s @ ls\<rparr>)"
proof (induction cs arbitrary: s)
  case Nil
  have "forEachIO (onProgress rid) [] s = (Inr (), s\<lparr>logs := logs s @ []\<rparr>)"
    by (simp add: returnIO_def)
  then show ?case by blast
next
  case (Cons c cs)
  obtain ev where 1: "onProgress rid c s = (Inr (), s\<lparr>logs := logs s @ [(rid, ev)]\<rparr>)"
    using onProgress_emits by blast
  obtain ls where 2: "forEachIO (onProgress rid) cs (s\<lparr>logs := logs s @ [(rid, ev)]\<rparr>)
      = (Inr (), s\<lparr>logs := logs s @ [(rid, ev)]\<rparr>\<lparr>logs := logs (s\<lparr>logs := logs s @ [(rid, ev)]\<rparr>) @ ls\<rparr>)"
    using Cons.IH by blast
  have "forEachIO (onProgress rid) (c # cs) s = (Inr (), s\<lparr>logs := logs s @ ((rid, ev) # ls)\<rparr>)"
    using 1 2 by (simp add: bindIO_def)
  then show ?case by blast
qed

lemma await_callWithRetry_result:
  "\<exists>ls. await_callWithRetry e rid s =
     ((case callWithRetry_throws e of Some x \<Rightarrow> Inl x | None \<Rightarrow> Inr (callWithRetry_returns e)),
      s\<lparr>logs := logs s @ ls\<rparr>)"
proof -
  obtain ls where "forEachIO (onProgress rid) (onProgress_calls e) s = (Inr (), s\<lparr>logs := logs s @ ls\<rparr>)"
    using forEach_onProgress by blast
  then have "await_callWithRetry e rid s =
     ((case callWithRetry_throws e of Some x \<Rightarrow> Inl x | None \<Rightarrow> Inr (callWithRetry_returns e)),
      s\<lparr>logs := logs s @ ls\<rparr>)"
    by (simp add: await_callWithRetry_def bindIO_def returnIO_def throwIO_def split: option.splits)
  then show ?thesis by blast
qed

lemma executeTask_start:
  assumes "runs s (runId task) = Some run" "getAgentRun_throws e = None"
    "setRunning_throws e = None" "userMessage_throws e = None" "callWithRetry_throws e = None"
  shows "\<exists>ls. executeTask e task s =
     handle_response e task run (callWithRetry_returns e)
       (s\<lparr>runs := (runs s)(runId task \<mapsto> run\<lparr>status := ''running''\<rparr>),
          runUpdates := runUpdates s @
            [(runId task, \<lparr>set_status = Some ''running'', set_outputJson = None, set_costEstimate = None\<rparr>)],
          messages := messages s @
            [\<lparr>msg_projectId = projectId task, agentRunId = runId task, role = ''user'', msg_content = goal task\<rparr>],
          logs := logs s @ ls\<rparr>)"
proof -
  define s3 where "s3 = s\<lparr>runs := (runs s)(runId task \<mapsto> run\<lparr>status := ''running''\<rparr>),
          runUpdates := runUpdates s @
            [(runId task, \<lparr>set_status = Some ''running'', set_outputJson = None, set_costEstimate = None\<rparr>)],
          messages := messages s @
            [\<lparr>msg_projectId = projectId task, agentRunId = runId task, role = ''user'', msg_content = goal task\<rparr>],
          logs := logs s @ [(runId task, \<lparr>type = ''info'',
                       message = ''Starting agent run with '' @ provider run
                         @ '' ('' @ model run @ '')''\<rparr>), (runId task, \<lparr>type = ''info'',
                       message = ''Calling '' @ provider run @ '' with model '' @ model run
                         @ '' (with retry/fallback)...''\<rparr>)]\<rparr>"
  obtain ls where ls: "await_callWithRetry e (runId task) s3 = (Inr (callWithRetry_returns e), s3\<lparr>logs := logs s3 @ ls\<rparr>)"
    using await_callWithRetry_result [of e "runId task" s3] assms(5) by auto
  have "executeTask e task s = handle_response e task run (callWithRetry_returns e) (s3\<lparr>logs := logs s3 @ ls\<rparr>)"
    using assms ls unfolding executeTask_def
    by (simp add: io_defs apply_update_def s3_def)
  then show ?thesis unfolding s3_def by (simp del: append_assoc) (metis append_assoc)
qed


lemma handle_response_failure:
  "\<not> success r \<Longrightarrow>
   handle_response e task run r s =
     (Inl (Error (or_string (error r) ''Provider call failed'')), s)"
  by (simp add: handle_response_def throwIO_def)

lemma try_executeTask_caught:
  assumes "executeTask e task s = (Inl x, s1)"
  shows "try_executeTask e task s =
     (case setFailed_throws e of
        None \<Rightarrow>
          (Inr (),
           s1\<lparr>logs := logs s1 @ [(runId task, failed_event x)],
              runs := (case runs s1 (runId task) of
                         None \<Rightarrow> runs s1
                       | Some r \<Rightarrow> (runs s1)(runId task \<mapsto> apply_update (failed_update x) r)),
              runUpdates := runUpdates s1 @ [(runId task, failed_update x)]\<rparr>)
      | Some y \<Rightarrow> (Inl y, s1\<lparr>logs := logs s1 @ [(runId task, failed_event x)]\<rparr>))"
  using assms
  by (simp add: try_executeTask_def io_defs failed_event_def failed_update_def split: option.splits)


lemma handle_response_success:
  assumes "success r" "assistantMessage_throws e = None"
  shows "\<exists>ls. handle_response e task run r s =
     record_success e task run r
       (s\<lparr>logs := logs s @ ls,
          messages := messages s @
            [\<lparr>msg_projectId = projectId task, agentRunId = runId task, role = ''assistant'',
              msg_content = or_string (content r) []\<rparr>]\<rparr>)"
proof (cases "usedProvider r \<noteq> provider run")
  case True
  with assms have "handle_response e task run r s =
     record_success e task run r
       (s\<lparr>logs := logs s @ [(runId task, \<lparr>type = ''info'',
                         message = ''Used fallback provider: '' @ usedProvider r
                           @ '' ('' @ string_of_nat (attempts r)
                           @ '' total attempts)''\<rparr>)],
          messages := messages s @
            [\<lparr>msg_projectId = projectId task, agentRunId = runId task, role = ''assistant'',
              msg_content = or_string (content r) []\<rparr>]\<rparr>)"
    by (simp add: handle_response_def io_defs)
  then show ?thesis by blast
next
  case False
  with assms have "handle_response e task run r s =
     record_success e task run r
       (s\<lparr>logs := logs s @ [],
          messages := messages s @
            [\<lparr>msg_projectId = projectId task, agentRunId = runId task, role = ''assistant'',
              msg_content = or_string (content r) []\<rparr>]\<rparr>)"
    by (simp add: handle_response_def io_defs)
  then show ?thesis by blast
qed


lemma record_success_costCalls:
  "costCalls (snd (record_success e task run r s)) =
     costCalls s @
       (if setCompleted_throws e = None
           \<and> gt_zero (parseFloat (or_string (opt_chain (usage r) costEstimate) ''0''))
        then [(orgId task, or_string (opt_chain (usage r) costEstimate) ''0'')] else [])"
  by (simp add: record_success_def Let_def io_defs split: option.splits)


lemma record_success_returns:
  assumes "record_success e task run r s = (Inr u, s')"
  shows "setCompleted_throws e = None
    \<and> usageRecords s' = usageRecords s @
        (case orgs s (orgId task) of
           None \<Rightarrow> []
         | Some owner \<Rightarrow>
             [\<lparr>ur_orgId = orgId task,
               ur_userId = ownerUserId owner,
               ur_provider = usedProvider r,
               ur_model = model run,
               ur_inputTokens = or_number (opt_chain (usage r) inputTokens) 0,
               ur_outputTokens = or_number (opt_chain (usage r) outputTokens) 0,
               estimatedCostUsd = or_string (opt_chain (usage r) costEstimate) ''0'',
               metadata = \<lparr>meta_agentRunId = runId task, originalProvider = provider run,
                            meta_attempts = attempts r\<rparr>\<rparr>])
    \<and> auditLogs s' = auditLogs s @
        [\<lparr>al_orgId = orgId task, al_userId = None, action = ''agent_run_completed'',
          target = runId task,
          detailJson = \<lparr>ad_provider = provider run, ad_usedProvider = usedProvider r,
                         ad_model = model run,
                         ad_costEstimate = or_string (opt_chain (usage r) costEstimate) ''0'',
                         ad_attempts = attempts r\<rparr>\<rparr>]
    \<and> messages s' = messages s \<and> orgs s' = orgs s"
  using assms
  by (auto simp: record_success_def Let_def io_defs split: option.splits if_splits)



lemma executeTask_throws_early:
  "getAgentRun_throws e = Some x \<Longrightarrow> executeTask e task s = (Inl x, s)"
  "getAgentRun_throws e = None \<Longrightarrow> runs s (runId task) = None \<Longrightarrow>
     executeTask e task s = (Inl (Error ''Agent run not found''), s)"
  "getAgentRun_throws e = None \<Longrightarrow> runs s (runId task) = Some run \<Longrightarrow>
     setRunning_throws e = Some x \<Longrightarrow> fst (executeTask e task s) = Inl x"
  "getAgentRun_throws e = None \<Longrightarrow> runs s (runId task) = Some run \<Longrightarrow>
     setRunning_throws e = None \<Longrightarrow> userMessage_throws e = Some x \<Longrightarrow>
     fst (executeTask e task s) = Inl x"
  by (simp_all add: executeTask_def io_defs)

lemma executeTask_rejected:
  assumes "runs s (runId task) = Some run" "getAgentRun_throws e = None"
    "setRunning_throws e = None" "userMessage_throws e = None" "callWithRetry_throws e = Some x"
  shows "fst (executeTask e task s) = Inl x"
proof -
  define s3 where "s3 = s\<lparr>runs := (runs s)(runId task \<mapsto> run\<lparr>status := ''running''\<rparr>),
          runUpdates := runUpdates s @
            [(runId task, \<lparr>set_status = Some ''running'', set_outputJson = None, set_costEstimate = None\<rparr>)],
          messages := messages s @
            [\<lparr>msg_projectId = projectId task, agentRunId = runId task, role = ''user'', msg_content = goal task\<rparr>],
          logs := logs s @ [(runId task, \<lparr>type = ''info'',
                       message = ''Starting agent run with '' @ provider run
                         @ '' ('' @ model run @ '')''\<rparr>), (runId task, \<lparr>type = ''info'',
                       message = ''Calling '' @ provider run @ '' with model '' @ model run
                         @ '' (with retry/fallback)...''\<rparr>)]\<rparr>"
  obtain ls where ls: "await_callWithRetry e (runId task) s3 = (Inl x, s3\<lparr>logs := logs s3 @ ls\<rparr>)"
    using await_callWithRetry_result [of e "runId task" s3] assms(5) by auto
  have "executeTask e task s = (Inl x, s3\<lparr>logs := logs s3 @ ls\<rparr>)"
    using assms ls unfolding executeTask_def
    by (simp add: io_defs apply_update_def s3_def)
  then show ?thesis by simp
qed

lemma executeTask_returns:
  assumes "executeTask e task s = (Inr u, s')"
  shows "getAgentRun_throws e = None" and "runs s (runId task) \<noteq> None"
    and "setRunning_throws e = None" and "userMessage_throws e = None"
    and "callWithRetry_throws e = None" and "success (callWithRetry_returns e)"
    and "assistantMessage_throws e = None"
proof -
  show 1: "getAgentRun_throws e = None"
    using assms executeTask_throws_early(1) [of e _ task s] by (cases "getAgentRun_throws e") auto
  show 2: "runs s (runId task) \<noteq> None"
    using assms 1 executeTask_throws_early(2) [of e s task] by auto
  then obtain run where run: "runs s (runId task) = Some run" by blast
  show 3: "setRunning_throws e = None"
    using assms 1 run executeTask_throws_early(3) [of e s task run]
    by (cases "setRunning_throws e") auto
  show 4: "userMessage_throws e = None"
    using assms 1 run 3 executeTask_throws_early(4) [of e s task run]
    by (cases "userMessage_throws e") auto
  show 5: "callWithRetry_throws e = None"
    using assms 1 run 3 4 executeTask_rejected [of s task run e]
    by (cases "callWithRetry_throws e") auto
  obtain ls where st: "executeTask e task s =
     handle_response e task run (callWithRetry_returns e)
       (s\<lparr>runs := (runs s)(runId task \<mapsto> run\<lparr>status := ''running''\<rparr>),
          runUpdates := runUpdates s @
            [(runId task, \<lparr>set_status = Some ''running'', set_outputJson = None, set_costEstimate = None\<rparr>)],
          messages := messages s @
            [\<lparr>msg_projectId = projectId task, agentRunId = runId task, role = ''user'', msg_content = goal task\<rparr>],
          logs := logs s @ ls\<rparr>)"
    using executeTask_start [OF run 1 3 4 5] by blast
  show 6: "success (callWithRetry_returns e)"
    using assms st handle_response_failure [of "callWithRetry_returns e" e task run]
    by (cases "success (callWithRetry_returns e)") auto
  show 7: "assistantMessage_throws e = None"
    using assms st 6
    by (cases "assistantMessage_throws e") (auto simp: handle_response_def io_defs split: if_splits)
qed

lemma executeTask_reaches_record_success:
  assumes "runs s (runId task) = Some run" "getAgentRun_throws e = None"
    "setRunning_throws e = None" "userMessage_throws e = None" "callWithRetry_throws e = None"
    "success (callWithRetry_returns e)" "assistantMessage_throws e = None"
  shows "\<exists>s4. executeTask e task s = record_success e task run (callWithRetry_returns e) s4
    \<and> runs s4 = (runs s)(runId task \<mapsto> run\<lparr>status := ''running''\<rparr>)
    \<and> runUpdates s4 = runUpdates s @ [(runId task, running_update)]
    \<and> orgs s4 = orgs s \<and> usageRecords s4 = usageRecords s \<and> auditLogs s4 = auditLogs s
    \<and> costCalls s4 = costCalls s"
proof -
  obtain ls where st: "executeTask e task s =
     handle_response e task run (callWithRetry_returns e)
       (s\<lparr>runs := (runs s)(runId task \<mapsto> run\<lparr>status := ''running''\<rparr>),
          runUpdates := runUpdates s @
            [(runId task, \<lparr>set_status = Some ''running'', set_outputJson = None, set_costEstimate = None\<rparr>)],
          messages := messages s @
            [\<lparr>msg_projectId = projectId task, agentRunId = runId task, role = ''user'', msg_content = goal task\<rparr>],
          logs := logs s @ ls\<rparr>)" (is "_ = handle_response _ _ _ _ ?s3")
    using executeTask_start [OF assms(1-5)] by blast
  obtain ls' where "handle_response e task run (callWithRetry_returns e) ?s3 =
     record_success e task run (callWithRetry_returns e)
       (?s3\<lparr>logs := logs ?s3 @ ls',
          messages := messages ?s3 @
            [\<lparr>msg_projectId = projectId task, agentRunId = runId task, role = ''assistant'',
              msg_content = or_string (content (callWithRetry_returns e)) []\<rparr>]\<rparr>)"
    using handle_response_success [OF assms(6,7)] by blast
  with st show ?thesis
    by (intro exI conjI, simp) (simp_all add: running_update_def)
qed

lemma calm_task1_returns: "fst (executeTask calm task1 store1) = Inr ()"
  by (simp add: task_defs io_defs example_defs parseFloat_defs apply_update_def Let_def)

subsection \<open>\<open>parseFloat\<close> on some inputs\<close>

lemma parseFloat_examples:
  "parseFloat ''0'' = Decimal False 0 0"
  "parseFloat ''0.0021'' = Decimal False 21 (- 4)"
  "parseFloat ''  -1.5e3 USD'' = Decimal True 15 2"
  "parseFloat [CHR 0xA0, CHR ''1''] = Decimal False 1 0"
  "parseFloat ''.5'' = Decimal False 5 (- 1)"
  "parseFloat ''5.e2'' = Decimal False 5 2"
  "parseFloat ''1e'' = Decimal False 1 0"
  "parseFloat ''abc'' = NaN"
  "parseFloat ''.'' = NaN"
  "parseFloat [] = NaN"
  "parseFloat ''-Infinity'' = Infinity True"
  by (simp_all add: parseFloat_defs)

lemma gt_zero_examples:
  "\<not> gt_zero (parseFloat ''0'')"
  "\<not> gt_zero (parseFloat ''0.000'')"
  "\<not> gt_zero (parseFloat ''-3'')"
  "\<not> gt_zero (parseFloat ''free'')"
  "gt_zero (parseFloat ''0.0021'')"
  "gt_zero (parseFloat ''5e-324'')"
  "\<not> gt_zero (parseFloat ''2e-324'')"
  by (simp_all add: parseFloat_defs)

subsection \<open>Settling a task\<close>

lemma settle_step:
  assumes "slot_inv w" "i < length (executing w)"
  shows "executing (step w (Settle i e)) = []"
    and "\<not> processing (step w (Settle i e))"
    and "activeCount (step w (Settle i e)) = 0"
    and "queue (step w (Settle i e)) = queue w"
    and "outside (step w (Settle i e)) = snd (try_executeTask e (executing w ! i) (outside w))"
    and "rejections (step w (Settle i e)) =
          rejections w @
            (case fst (try_executeTask e (executing w ! i) (outside w)) of
               Inl y \<Rightarrow> [y] | Inr u \<Rightarrow> [])"
    and "executing (step (step w (Settle i e)) Timeout) = take 1 (queue w)"
    and "queue (step (step w (Settle i e)) Timeout) = drop 1 (queue w)"
proof -
  from assms have one: "length (executing w) = 1" and i0: "i = 0"
    and ac: "activeCount w = 1" and c: "concurrency w = 2"
    by (auto simp: slot_inv_def)
  then have nil: "take i (executing w) @ drop (Suc i) (executing w) = []" by simp
  obtain r s' where t: "try_executeTask e (executing w ! i) (outside w) = (r, s')"
    by (cases "try_executeTask e (executing w ! i) (outside w)")
  show "executing (step w (Settle i e)) = []"
    using assms(2) nil t by (simp add: processQueue_resume_def Let_def split: sum.splits)
  show "\<not> processing (step w (Settle i e))"
    using assms(2) t by (simp add: processQueue_resume_def Let_def split: sum.splits)
  show "activeCount (step w (Settle i e)) = 0"
    using assms(2) t ac by (simp add: processQueue_resume_def Let_def split: sum.splits)
  show "queue (step w (Settle i e)) = queue w"
    using assms(2) t by (simp add: processQueue_resume_def Let_def split: sum.splits)
  show "outside (step w (Settle i e)) = snd (try_executeTask e (executing w ! i) (outside w))"
    using assms(2) t by (simp add: processQueue_resume_def Let_def split: sum.splits)
  show "rejections (step w (Settle i e)) =
          rejections w @
            (case fst (try_executeTask e (executing w ! i) (outside w)) of
               Inl y \<Rightarrow> [y] | Inr u \<Rightarrow> [])"
    using assms(2) t by (simp add: processQueue_resume_def Let_def split: sum.splits)
  show "executing (step (step w (Settle i e)) Timeout) = take 1 (queue w)"
    using assms(2) t ac c nil
    by (cases "queue w")
       (simp_all add: processQueue_resume_def processQueue_def Let_def split: sum.splits)
  show "queue (step (step w (Settle i e)) Timeout) = drop 1 (queue w)"
    using assms(2) t ac c nil
    by (cases "queue w")
       (simp_all add: processQueue_resume_def processQueue_def Let_def split: sum.splits)
qed

lemma slot_inv_node_step: "slot_inv w \<Longrightarrow> slot_inv (node_step w ev)"
  by (simp add: node_step_def slot_inv_step del: step.simps)

lemma slot_inv_node_foldl: "slot_inv w \<Longrightarrow> slot_inv (foldl node_step w evs)"
  by (induction evs arbitrary: w) (simp_all add: slot_inv_node_step)

lemma slot_inv_node_run: "slot_inv (node_run s evs)"
  unfolding node_run_def by (rule slot_inv_node_foldl) (rule slot_inv_initial)

lemma node_step_alive: "rejections w = [] \<Longrightarrow> node_step w ev = step w ev"
  by (simp add: node_step_def)

lemma node_step_ended: "rejections w \<noteq> [] \<Longrightarrow> node_step w ev = w"
  by (simp add: node_step_def)

lemma node_run_snoc: "node_run s (evs @ [ev]) = node_step (node_run s evs) ev"
  by (simp add: node_run_def)

lemma run_events_snoc: "run_events s (evs @ [ev]) = step (run_events s evs) ev"
  by (simp add: run_events_def)

subsection \<open>A failed executor call\<close>

lemma try_executeTask_executor_failure:
  assumes "runs s (runId task) = Some run" and "getAgentRun_throws e = None"
    and "setRunning_throws e = None" and "userMessage_throws e = None"
    and "callWithRetry_throws e = None" and "\<not> success (callWithRetry_returns e)"
  shows "let x = Error (or_string (error (callWithRetry_returns e)) ''Provider call failed'');
             s' = snd (try_executeTask e task s)
         in last (logs s') = (runId task, failed_event x)
            \<and> length (logs s) < length (logs s')
            \<and> usageRecords s' = usageRecords s
            \<and> auditLogs s' = auditLogs s
            \<and> costCalls s' = costCalls s
            \<and> (setFailed_throws e = None \<longrightarrow>
                 fst (try_executeTask e task s) = Inr ()
                 \<and> runs s' (runId task)
                     = Some (run\<lparr>status := ''failed'',
                                  outputJson := Some (Failure (error_message x))\<rparr>)
                 \<and> runUpdates s'
                     = runUpdates s @
                         [(runId task, running_update), (runId task, failed_update x)])"
proof -
  define x where "x = Error (or_string (error (callWithRetry_returns e)) ''Provider call failed'')"
  obtain ls where st: "executeTask e task s =
     handle_response e task run (callWithRetry_returns e)
       (s\<lparr>runs := (runs s)(runId task \<mapsto> run\<lparr>status := ''running''\<rparr>),
          runUpdates := runUpdates s @
            [(runId task, \<lparr>set_status = Some ''running'', set_outputJson = None, set_costEstimate = None\<rparr>)],
          messages := messages s @
            [\<lparr>msg_projectId = projectId task, agentRunId = runId task, role = ''user'', msg_content = goal task\<rparr>],
          logs := logs s @ ls\<rparr>)" (is "_ = handle_response _ _ _ _ ?s1")
    using executeTask_start [OF assms(1-5)] by blast
  have ex: "executeTask e task s = (Inl x, ?s1)"
    using st assms(6) by (simp add: handle_response_failure x_def)
  note tc = try_executeTask_caught [OF ex]
  show ?thesis
    unfolding Let_def x_def [symmetric]
    using tc
    by (auto simp: failed_update_def running_update_def apply_update_def split: option.splits)
qed

text \<open>
  C6, as amended: when the executor returns an unsuccessful outcome for an admitted
  task, the queue emits an error log event for the run id and creates no Usage record
  and no Audit record; when the store acknowledges the update of the handler, the run
  gets the status \<open>failed\<close> and, as output, the error description of the outcome
  (\<open>Provider call failed\<close> when the outcome has none), and no exception leaves
  \<open>processQueue\<close>.
\<close>

theorem executor_failure_ends_in_failed_run:
  assumes "i < length (executing (run_events s0 evs))"
    and "runs (outside (run_events s0 evs)) (runId (executing (run_events s0 evs) ! i))
           = Some run"
    and "getAgentRun_throws e = None" and "setRunning_throws e = None"
    and "userMessage_throws e = None" and "callWithRetry_throws e = None"
    and "\<not> success (callWithRetry_returns e)"
  shows "let w = run_events s0 evs; task = executing w ! i;
             x = Error (or_string (error (callWithRetry_returns e)) ''Provider call failed'');
             w' = step w (Settle i e)
         in last (logs (outside w')) = (runId task, failed_event x)
            \<and> length (logs (outside w)) < length (logs (outside w'))
            \<and> usageRecords (outside w') = usageRecords (outside w)
            \<and> auditLogs (outside w') = auditLogs (outside w)
            \<and> (setFailed_throws e = None \<longrightarrow>
                 rejections w' = rejections w
                 \<and> runs (outside w') (runId task)
                     = Some (run\<lparr>status := ''failed'',
                                  outputJson := Some (Failure (error_message x))\<rparr>)
                 \<and> runUpdates (outside w')
                     = runUpdates (outside w) @
                         [(runId task, running_update), (runId task, failed_update x)])"
proof -
  define w where "w = run_events s0 evs"
  define task where "task = executing w ! i"
  define x where "x = Error (or_string (error (callWithRetry_returns e)) ''Provider call failed'')"
  have inv: "slot_inv w" unfolding w_def by (rule slot_inv_run_events)
  have i: "i < length (executing w)" using assms(1) by (simp add: w_def)
  have run: "runs (outside w) (runId task) = Some run"
    using assms(2) by (simp add: w_def task_def)
  note ss = settle_step [OF inv i, of e, folded task_def]
  have out: "outside (step w (Settle i e)) = snd (try_executeTask e task (outside w))"
    by (rule ss(5))
  have rej: "rejections (step w (Settle i e)) =
          rejections w @
            (case fst (try_executeTask e task (outside w)) of Inl y \<Rightarrow> [y] | Inr u \<Rightarrow> [])"
    by (rule ss(6))
  note t = try_executeTask_executor_failure [OF run assms(3-7), unfolded Let_def, folded x_def]
  show ?thesis
    unfolding Let_def w_def [symmetric] task_def [symmetric] x_def [symmetric]
    using t by (simp add: out rej del: step.simps)
qed

theorem executor_failure_ends_in_failed_run_witness:
  "runs (outside (run_events store1
      [Enqueue task1, Settle 0 (calm\<lparr>callWithRetry_returns := refusal\<rparr>)])) ''run-1''
     = Some (run1\<lparr>status := ''failed'', outputJson := Some (Failure ''All providers failed'')\<rparr>)
   \<and> last (logs (outside (run_events store1
      [Enqueue task1, Settle 0 (calm\<lparr>callWithRetry_returns := refusal\<rparr>)])))
     = (''run-1'', \<lparr>type = ''error'', message = ''Task failed: All providers failed''\<rparr>)
   \<and> usageRecords (outside (run_events store1
      [Enqueue task1, Settle 0 (calm\<lparr>callWithRetry_returns := refusal\<rparr>)])) = []
   \<and> auditLogs (outside (run_events store1
      [Enqueue task1, Settle 0 (calm\<lparr>callWithRetry_returns := refusal\<rparr>)])) = []"
proof -
  define e where "e = calm\<lparr>callWithRetry_returns := refusal\<rparr>"
  have w: "executing (run_events store1 [Enqueue task1]) = [task1]"
    "outside (run_events store1 [Enqueue task1])
       = store1\<lparr>logs := [(''run-1'', \<lparr>type = ''info'', message = ''Task queued''\<rparr>)]\<rparr>"
    by (simp_all add: queue_defs emit_def example_defs)
  have h: "0 < length (executing (run_events store1 [Enqueue task1]))"
    "runs (outside (run_events store1 [Enqueue task1]))
        (runId (executing (run_events store1 [Enqueue task1]) ! 0)) = Some run1"
    "getAgentRun_throws e = None" "setRunning_throws e = None"
    "userMessage_throws e = None" "callWithRetry_throws e = None"
    "\<not> success (callWithRetry_returns e)"
    by (simp_all add: w) (simp_all add: e_def example_defs)
  have a: "run_events store1 [Enqueue task1, Settle 0 e]
      = step (run_events store1 [Enqueue task1]) (Settle 0 e)"
    using run_events_snoc [of store1 "[Enqueue task1]" "Settle 0 e"] by simp
  have v: "setFailed_throws e = None"
    "error (callWithRetry_returns e) = Some ''All providers failed''"
    "runId task1 = ''run-1''" "usageRecords store1 = []" "auditLogs store1 = []"
    by (simp_all add: e_def example_defs)
  from executor_failure_ends_in_failed_run [OF h] show ?thesis
    unfolding e_def [symmetric] a Let_def
    by (simp add: w v failed_event_def or_string_def del: step.simps)
qed

text \<open>
  C6 as stated fails: the executor returns an unsuccessful outcome for the admitted task
  \<open>task1\<close> and the store rejects the update of the handler; the only status written
  for the run is \<open>running\<close>, and the run keeps it.
\<close>

theorem executor_failure_rejected_update_counterexample:
  "\<not> success (callWithRetry_returns
        (calm\<lparr>callWithRetry_returns := refusal,
              setFailed_throws := Some (Error ''store unavailable'')\<rparr>))
   \<and> executing (run_events store1 [Enqueue task1]) = [task1]
   \<and> map_option status (runs (outside (run_events store1
        [Enqueue task1,
         Settle 0 (calm\<lparr>callWithRetry_returns := refusal,
                        setFailed_throws := Some (Error ''store unavailable'')\<rparr>)])) ''run-1'')
       = Some ''running''
   \<and> map (set_status \<circ> snd) (runUpdates (outside (run_events store1
        [Enqueue task1,
         Settle 0 (calm\<lparr>callWithRetry_returns := refusal,
                        setFailed_throws := Some (Error ''store unavailable'')\<rparr>)])))
       = [Some ''running'']"
  by (simp add: queue_defs task_defs io_defs example_defs Let_def apply_update_def)


subsection \<open>The records of a successful run\<close>

text \<open>
  C5, as amended: for every run that completes successfully (\<open>executeTask\<close> returns),
  exactly one Usage record is created when the store has the organization of the task:
  it carries the token counts and the cost estimate of the outcome, the owner of the
  organization, the provider that served the request, and as metadata the run id, the
  provider requested by the run and the attempt count. When the store has no such
  organization, no Usage record is created.
\<close>

theorem usage_record_when_org_found:
  assumes "executeTask e task s = (Inr (), s')" "runs s (runId task) = Some run"
  shows "usageRecords s' = usageRecords s @
        (case orgs s (orgId task) of
           None \<Rightarrow> []
         | Some owner \<Rightarrow>
             [\<lparr>ur_orgId = orgId task,
               ur_userId = ownerUserId owner,
               ur_provider = usedProvider (callWithRetry_returns e),
               ur_model = model run,
               ur_inputTokens = or_number (opt_chain (usage (callWithRetry_returns e)) inputTokens) 0,
               ur_outputTokens = or_number (opt_chain (usage (callWithRetry_returns e)) outputTokens) 0,
               estimatedCostUsd = or_string (opt_chain (usage (callWithRetry_returns e)) costEstimate) ''0'',
               metadata = \<lparr>meta_agentRunId = runId task, originalProvider = provider run,
                            meta_attempts = attempts (callWithRetry_returns e)\<rparr>\<rparr>])"
proof -
  note r = executeTask_returns [OF assms(1)]
  obtain s4 where s4: "executeTask e task s = record_success e task run (callWithRetry_returns e) s4"
    "orgs s4 = orgs s" "usageRecords s4 = usageRecords s"
    using executeTask_reaches_record_success [OF assms(2) r(1,3,4,5,6,7)] by blast
  from s4(1) assms(1) have "record_success e task run (callWithRetry_returns e) s4 = (Inr (), s')"
    by simp
  from record_success_returns [OF this] s4(2,3) show ?thesis by simp
qed

theorem usage_record_when_org_found_witness:
  "usageRecords (snd (executeTask calm task1 store1)) =
     [\<lparr>ur_orgId = ''org-1'', ur_userId = ''user-1'', ur_provider = ''openai'',
       ur_model = ''gpt-4o'', ur_inputTokens = 12, ur_outputTokens = 30,
       estimatedCostUsd = ''0.0021'',
       metadata = \<lparr>meta_agentRunId = ''run-1'', originalProvider = ''openai'',
                    meta_attempts = 1\<rparr>\<rparr>]"
proof -
  have h: "executeTask calm task1 store1 = (Inr (), snd (executeTask calm task1 store1))"
    using calm_task1_returns by (metis prod.collapse)
  have r: "runs store1 (runId task1) = Some run1" by (simp add: example_defs)
  from usage_record_when_org_found [OF h r] show ?thesis
    by (simp add: example_defs parseFloat_defs)
qed

text \<open>
  C5 as stated fails: the task \<open>task3\<close> names an organization that the store does not
  have; its run completes successfully and no Usage record exists afterwards.
\<close>

theorem usage_record_missing_org_counterexample:
  "fst (executeTask calm task3 store1) = Inr ()
   \<and> map_option status (runs (snd (executeTask calm task3 store1)) ''run-1'') = Some ''completed''
   \<and> usageRecords (snd (executeTask calm task3 store1)) = []"
  by (simp add: task_defs io_defs example_defs parseFloat_defs apply_update_def Let_def)

text \<open>
  C3, as amended: for every run that completes successfully, \<open>trackCost\<close> is invoked
  once, with the organization of the task and the cost estimate string of the outcome,
  when \<open>parseFloat\<close> of that string is greater than 0, and it is not invoked otherwise;
  an absent or empty cost estimate is read as \<open>"0"\<close>.
\<close>

theorem trackCost_when_cost_positive:
  assumes "executeTask e task s = (Inr (), s')"
  shows "costCalls s' = costCalls s @
       (if gt_zero (parseFloat (or_string (opt_chain (usage (callWithRetry_returns e)) costEstimate) ''0''))
        then [(orgId task, or_string (opt_chain (usage (callWithRetry_returns e)) costEstimate) ''0'')]
        else [])"
proof -
  note r = executeTask_returns [OF assms(1)]
  then obtain run where run: "runs s (runId task) = Some run" by blast
  obtain s4 where s4: "executeTask e task s = record_success e task run (callWithRetry_returns e) s4"
    "costCalls s4 = costCalls s"
    using executeTask_reaches_record_success [OF run r(1,3,4,5,6,7)] by blast
  from s4(1) assms(1) have rs: "record_success e task run (callWithRetry_returns e) s4 = (Inr (), s')"
    by simp
  from record_success_returns [OF rs] have "setCompleted_throws e = None" by simp
  with record_success_costCalls [of e task run "callWithRetry_returns e" s4] rs s4(2)
  show ?thesis by simp
qed


theorem trackCost_when_cost_positive_witness:
  "costCalls (snd (executeTask calm task1 store1)) = [(''org-1'', ''0.0021'')]"
proof -
  have h: "executeTask calm task1 store1 = (Inr (), snd (executeTask calm task1 store1))"
    using calm_task1_returns by (metis prod.collapse)
  from trackCost_when_cost_positive [OF h] show ?thesis
    by (simp add: example_defs parseFloat_defs)
qed

text \<open>
  C3 as stated fails: an outcome without usage has the cost estimate \<open>"0"\<close>; the run
  completes successfully and \<open>trackCost\<close> is not invoked.
\<close>

theorem trackCost_zero_cost_counterexample:
  "fst (executeTask (calm\<lparr>callWithRetry_returns := answer\<lparr>usage := None\<rparr>\<rparr>) task1 store1) = Inr ()
   \<and> map_option status
        (runs (snd (executeTask (calm\<lparr>callWithRetry_returns := answer\<lparr>usage := None\<rparr>\<rparr>) task1 store1))
           ''run-1'') = Some ''completed''
   \<and> costCalls (snd (executeTask (calm\<lparr>callWithRetry_returns := answer\<lparr>usage := None\<rparr>\<rparr>) task1 store1)) = []"
  by (simp add: task_defs io_defs example_defs parseFloat_defs apply_update_def Let_def)


subsection \<open>Exceptions and the process\<close>

lemma node_settle_contained:
  assumes "rejections (node_run s0 evs) = []"
    and "i < length (executing (node_run s0 evs))"
    and "fst (try_executeTask e (executing (node_run s0 evs) ! i) (outside (node_run s0 evs)))
           = Inr ()"
  shows "let w = node_run s0 evs; w' = node_step w (Settle i e)
         in outside w' = snd (try_executeTask e (executing w ! i) (outside w))
            \<and> rejections w' = []
            \<and> executing w' = [] \<and> \<not> processing w' \<and> activeCount w' = 0
            \<and> queue w' = queue w
            \<and> executing (node_step w' Timeout) = take 1 (queue w)
            \<and> queue (node_step w' Timeout) = drop 1 (queue w)"
proof -
  define w where "w = node_run s0 evs"
  have inv: "slot_inv w" unfolding w_def by (rule slot_inv_node_run)
  have alive: "rejections w = []" using assms(1) by (simp add: w_def)
  have i: "i < length (executing w)" using assms(2) by (simp add: w_def)
  have ok: "fst (try_executeTask e (executing w ! i) (outside w)) = Inr ()"
    using assms(3) by (simp add: w_def)
  note ss = settle_step [OF inv i, of e]
  have n1: "node_step w (Settle i e) = step w (Settle i e)"
    using alive by (rule node_step_alive)
  have rej: "rejections (step w (Settle i e)) = []"
    using ss(6) alive ok by simp
  then have n2: "node_step (step w (Settle i e)) Timeout = step (step w (Settle i e)) Timeout"
    by (rule node_step_alive)
  show ?thesis
    unfolding Let_def w_def [symmetric] n1 n2
    using ss(1-5,7,8) rej by (simp del: step.simps)
qed

lemma missing_run_contained:
  assumes "rejections (node_run s0 evs) = []"
    and "i < length (executing (node_run s0 evs))"
    and "runs (outside (node_run s0 evs)) (runId (executing (node_run s0 evs) ! i)) = None"
    and "getAgentRun_throws e = None" and "setFailed_throws e = None"
  shows "let w = node_run s0 evs; task = executing w ! i;
             x = Error ''Agent run not found''; w' = node_step w (Settle i e)
         in logs (outside w') = logs (outside w) @ [(runId task, failed_event x)]
            \<and> runUpdates (outside w') = runUpdates (outside w) @ [(runId task, failed_update x)]
            \<and> runs (outside w') = runs (outside w)
            \<and> messages (outside w') = messages (outside w)
            \<and> usageRecords (outside w') = usageRecords (outside w)
            \<and> auditLogs (outside w') = auditLogs (outside w)
            \<and> costCalls (outside w') = costCalls (outside w)
            \<and> rejections w' = []
            \<and> executing w' = [] \<and> \<not> processing w' \<and> activeCount w' = 0
            \<and> queue w' = queue w
            \<and> executing (node_step w' Timeout) = take 1 (queue w)
            \<and> queue (node_step w' Timeout) = drop 1 (queue w)"
proof -
  define w where "w = node_run s0 evs"
  define task where "task = executing w ! i"
  have ex: "executeTask e task (outside w) = (Inl (Error ''Agent run not found''), outside w)"
    using assms(3,4) by (simp add: executeTask_throws_early(2) w_def task_def)
  note tc = try_executeTask_caught [OF ex]
  have ok: "fst (try_executeTask e (executing (node_run s0 evs) ! i) (outside (node_run s0 evs)))
           = Inr ()"
    using tc assms(5) by (simp add: w_def task_def)
  have noRun: "runs (outside w) (runId task) = None"
    using assms(3) by (simp add: w_def task_def)
  note c = node_settle_contained [OF assms(1,2) ok, unfolded Let_def, folded w_def, folded task_def]
  show ?thesis
    unfolding Let_def w_def [symmetric] task_def [symmetric]
    using c noRun assms(5) by (simp add: tc)
qed

text \<open>
  C2: a task whose run id has no record in the store is to end with an error log event
  and no change to any Run, Usage record or Audit record, and the other tasks of the
  backlog are to be processed. With a store that acknowledges the update of the handler
  this is what happens (\<open>missing_run_contained\<close>: the update names an id without
  a Run and changes none). When the store rejects that update, the exception leaves
  \<open>processQueue\<close> and the process ends: \<open>task2\<close> has no Run, \<open>task1\<close> waits behind
  it, and after the timer \<open>task1\<close> is still in the backlog, never admitted, whereas
  with an acknowledging store it is admitted.
\<close>

theorem missing_run_rejected_update_ends_process:
  "runs store1 (runId task2) = None
   \<and> rejections (node_run store1
        [Enqueue task2, Enqueue task1,
         Settle 0 (calm\<lparr>setFailed_throws := Some (Error ''store unavailable'')\<rparr>), Timeout])
       = [Error ''store unavailable'']
   \<and> admitted (node_run store1
        [Enqueue task2, Enqueue task1,
         Settle 0 (calm\<lparr>setFailed_throws := Some (Error ''store unavailable'')\<rparr>), Timeout])
       = [task2]
   \<and> queue (node_run store1
        [Enqueue task2, Enqueue task1,
         Settle 0 (calm\<lparr>setFailed_throws := Some (Error ''store unavailable'')\<rparr>), Timeout])
       = [task1]
   \<and> admitted (node_run store1 [Enqueue task2, Enqueue task1, Settle 0 calm, Timeout])
       = [task2, task1]"
  by (simp add: node_run_def node_step_def queue_defs task_defs io_defs example_defs Let_def)

lemma executeTask_exception_contained:
  assumes "rejections (node_run s0 evs) = []"
    and "i < length (executing (node_run s0 evs))"
    and "executeTask e (executing (node_run s0 evs) ! i) (outside (node_run s0 evs))
           = (Inl x, s1)"
    and "setFailed_throws e = None"
  shows "let w = node_run s0 evs; task = executing w ! i; w' = node_step w (Settle i e)
         in logs (outside w') = logs s1 @ [(runId task, failed_event x)]
            \<and> runUpdates (outside w') = runUpdates s1 @ [(runId task, failed_update x)]
            \<and> runs (outside w') (runId task)
                = map_option (apply_update (failed_update x)) (runs s1 (runId task))
            \<and> rejections w' = []
            \<and> executing w' = [] \<and> \<not> processing w' \<and> activeCount w' = 0
            \<and> queue w' = queue w
            \<and> executing (node_step w' Timeout) = take 1 (queue w)
            \<and> queue (node_step w' Timeout) = drop 1 (queue w)"
proof -
  define w where "w = node_run s0 evs"
  define task where "task = executing w ! i"
  have ex: "executeTask e task (outside w) = (Inl x, s1)"
    using assms(3) by (simp add: w_def task_def)
  note tc = try_executeTask_caught [OF ex]
  have ok: "fst (try_executeTask e (executing (node_run s0 evs) ! i) (outside (node_run s0 evs)))
           = Inr ()"
    using tc assms(4) by (simp add: w_def task_def)
  note c = node_settle_contained [OF assms(1,2) ok, unfolded Let_def, folded w_def, folded task_def]
  show ?thesis
    unfolding Let_def w_def [symmetric] task_def [symmetric]
    using c assms(4) by (simp add: tc split: option.splits)
qed

text \<open>
  C8: every exception of a processing step, the store writes of the failure path
  included, is to be caught at the task boundary, turned into a \<open>failed\<close> run and an
  error log event, and is not to leave the dispatch loop or to keep the backlog from
  being admitted. For the exceptions of \<open>executeTask\<close> this is what happens when the
  store acknowledges the update of the handler (\<open>executeTask_exception_contained\<close>).
  The update of the handler itself is awaited inside no \<open>try\<close>: when the insertion of
  the user message throws and that update throws as well, the exception leaves
  \<open>processQueue\<close>, the run keeps the status \<open>running\<close>, the process ends, and the
  task behind it is never admitted.
\<close>

theorem handler_exception_ends_process:
  "rejections (node_run store1
      [Enqueue task1, Enqueue task2,
       Settle 0 (calm\<lparr>userMessage_throws := Some (Error ''store unavailable''),
                      setFailed_throws := Some (Error ''store unavailable'')\<rparr>), Timeout])
     = [Error ''store unavailable'']
   \<and> map_option status (runs (outside (node_run store1
      [Enqueue task1, Enqueue task2,
       Settle 0 (calm\<lparr>userMessage_throws := Some (Error ''store unavailable''),
                      setFailed_throws := Some (Error ''store unavailable'')\<rparr>), Timeout]))
        ''run-1'') = Some ''running''
   \<and> map (set_status \<circ> snd) (runUpdates (outside (node_run store1
      [Enqueue task1, Enqueue task2,
       Settle 0 (calm\<lparr>userMessage_throws := Some (Error ''store unavailable''),
                      setFailed_throws := Some (Error ''store unavailable'')\<rparr>), Timeout])))
     = [Some ''running'']
   \<and> admitted (node_run store1
      [Enqueue task1, Enqueue task2,
       Settle 0 (calm\<lparr>userMessage_throws := Some (Error ''store unavailable''),
                      setFailed_throws := Some (Error ''store unavailable'')\<rparr>), Timeout])
     = [task1]
   \<and> queue (node_run store1
      [Enqueue task1, Enqueue task2,
       Settle 0 (calm\<lparr>userMessage_throws := Some (Error ''store unavailable''),
                      setFailed_throws := Some (Error ''store unavailable'')\<rparr>), Timeout])
     = [task2]"
  by (simp add: node_run_def node_step_def queue_defs task_defs io_defs example_defs Let_def
      apply_update_def)

subsection \<open>The status after \<open>completed\<close>\<close>





section \<open>Properties of the executor\<close>

lemma try_provider_transient_then_served:
  assumes "k < left" "\<forall>j<k. is_transient (transport ex p prompt mdl (n + j))"
    "transport ex p prompt mdl (n + k) = Served c i o'"
  shows "try_provider ex prompt mdl p left n =
     map (\<lambda>j. (p, transport ex p prompt mdl (n + j))) [0..<k] @ [(p, Served c i o')]"
  using assms
proof (induction k arbitrary: left n)
  case 0
  then obtain l where "left = Suc l" by (cases left) auto
  with 0 show ?case by simp
next
  case (Suc k)
  then obtain l where l: "left = Suc l" by (cases left) auto
  from Suc.prems(2) have t0: "is_transient (transport ex p prompt mdl n)" by force
  then obtain err where err: "transport ex p prompt mdl n = TransientError err"
    by (cases "transport ex p prompt mdl n") auto
  have IH: "try_provider ex prompt mdl p l (Suc n) =
     map (\<lambda>j. (p, transport ex p prompt mdl (Suc n + j))) [0..<k] @ [(p, Served c i o')]"
    using Suc.prems l by (intro Suc.IH) auto
  have "map (\<lambda>j. (p, transport ex p prompt mdl (n + j))) [0..<Suc k] =
      (p, transport ex p prompt mdl n) # map (\<lambda>j. (p, transport ex p prompt mdl (Suc n + j))) [0..<k]"
    by (simp add: upt_conv_Cons map_Suc_upt [symmetric] del: upt_Suc)
  with l err IH show ?case by (simp del: upt_Suc)
qed

lemma try_provider_all_transient:
  assumes "\<forall>j<left. is_transient (transport ex p prompt mdl (n + j))"
  shows "try_provider ex prompt mdl p left n =
     map (\<lambda>j. (p, transport ex p prompt mdl (n + j))) [0..<left]"
  using assms
proof (induction left arbitrary: n)
  case 0
  then show ?case by simp
next
  case (Suc left)
  from Suc.prems have t0: "is_transient (transport ex p prompt mdl n)" by force
  then obtain err where err: "transport ex p prompt mdl n = TransientError err"
    by (cases "transport ex p prompt mdl n") auto
  have IH: "try_provider ex prompt mdl p left (Suc n) =
     map (\<lambda>j. (p, transport ex p prompt mdl (Suc n + j))) [0..<left]"
    using Suc.prems by (intro Suc.IH) auto
  have "map (\<lambda>j. (p, transport ex p prompt mdl (n + j))) [0..<Suc left] =
      (p, transport ex p prompt mdl n) # map (\<lambda>j. (p, transport ex p prompt mdl (Suc n + j))) [0..<left]"
    by (simp add: upt_conv_Cons map_Suc_upt [symmetric] del: upt_Suc)
  with err IH show ?case by (simp del: upt_Suc)
qed


lemma try_provider_hd:
  "0 < left \<Longrightarrow> try_provider ex prompt mdl p left n \<noteq> []
     \<and> fst (hd (try_provider ex prompt mdl p left n)) = p"
  by (cases left) (auto split: call_result.splits)

lemma try_providers_hd:
  "0 < ceiling ex \<Longrightarrow> try_providers ex prompt mdl (q # qs) n \<noteq> []
     \<and> fst (hd (try_providers ex prompt mdl (q # qs) n)) = q"
  using try_provider_hd [of "ceiling ex" ex prompt mdl q n]
  by (auto simp: Let_def)

text \<open>
  C9: when the primary provider fails transiently \<open>k\<close> times and then succeeds, with
  \<open>k\<close> below the attempt ceiling, \<open>callWithRetry\<close> returns a successful outcome whose
  \<open>usedProvider\<close> is the primary provider and whose \<open>attempts\<close> is \<open>k + 1\<close>, and all these
  attempts go to the primary provider. When the primary provider fails transiently at
  every attempt up to the ceiling, the first attempts, as many as the ceiling, go to the
  primary provider, and only then the providers of the fallback order are tried, the
  first of them first.
\<close>

theorem retries_stay_on_primary:
  assumes "k < ceiling ex"
    and "\<forall>j<k. is_transient (transport ex primary prompt mdl j)"
    and "transport ex primary prompt mdl k = Served c i o'"
    and "\<forall>j<ceiling ex'. is_transient (transport ex' primary prompt mdl j)"
  shows "success (callWithRetry ex primary prompt mdl)
    \<and> usedProvider (callWithRetry ex primary prompt mdl) = primary
    \<and> attempts (callWithRetry ex primary prompt mdl) = k + 1
    \<and> map fst (attempts_made ex primary prompt mdl) = replicate (k + 1) primary
    \<and> map fst (take (ceiling ex') (attempts_made ex' primary prompt mdl))
        = replicate (ceiling ex') primary
    \<and> drop (ceiling ex') (attempts_made ex' primary prompt mdl)
        = try_providers ex' prompt mdl (fallbackOrder ex') (ceiling ex')
    \<and> (0 < ceiling ex' \<and> fallbackOrder ex' \<noteq> [] \<longrightarrow>
         fst (attempts_made ex' primary prompt mdl ! ceiling ex') = hd (fallbackOrder ex'))"
proof -
  have tp: "try_provider ex prompt mdl primary (ceiling ex) 0 =
     map (\<lambda>j. (primary, transport ex primary prompt mdl (0 + j))) [0..<k] @ [(primary, Served c i o')]"
    using assms(1-3) by (intro try_provider_transient_then_served) auto
  then have am: "attempts_made ex primary prompt mdl =
     map (\<lambda>j. (primary, transport ex primary prompt mdl j)) [0..<k] @ [(primary, Served c i o')]"
    by (simp add: attempts_made_def Let_def)
  have 1: "success (callWithRetry ex primary prompt mdl)
    \<and> usedProvider (callWithRetry ex primary prompt mdl) = primary
    \<and> attempts (callWithRetry ex primary prompt mdl) = k + 1"
    by (simp add: callWithRetry_def am Let_def)
  have 2: "map fst (attempts_made ex primary prompt mdl) = replicate (k + 1) primary"
    by (simp add: am comp_def map_replicate_const replicate_append_same)
  have tp': "try_provider ex' prompt mdl primary (ceiling ex') 0 =
     map (\<lambda>j. (primary, transport ex' primary prompt mdl (0 + j))) [0..<ceiling ex']"
    using assms(4) by (intro try_provider_all_transient) auto
  have notserved: "\<not> (try_provider ex' prompt mdl primary (ceiling ex') 0 \<noteq> []
      \<and> is_served (snd (last (try_provider ex' prompt mdl primary (ceiling ex') 0))))"
  proof (cases "ceiling ex'")
    case 0
    then show ?thesis by simp
  next
    case (Suc m)
    with assms(4) have "is_transient (transport ex' primary prompt mdl m)" by simp
    then have "\<not> is_served (transport ex' primary prompt mdl m)"
      by (cases "transport ex' primary prompt mdl m") auto
    with Suc tp' show ?thesis by simp
  qed
  have am': "attempts_made ex' primary prompt mdl =
     map (\<lambda>j. (primary, transport ex' primary prompt mdl j)) [0..<ceiling ex']
       @ try_providers ex' prompt mdl (fallbackOrder ex') (ceiling ex')"
  proof -
    have "try_providers ex' prompt mdl (primary # fallbackOrder ex') 0 =
      try_provider ex' prompt mdl primary (ceiling ex') 0
        @ try_providers ex' prompt mdl (fallbackOrder ex')
            (0 + length (try_provider ex' prompt mdl primary (ceiling ex') 0))"
      using notserved by (simp only: try_providers.simps Let_def if_False)
    then show ?thesis by (simp add: attempts_made_def tp')
  qed
  have 3: "map fst (take (ceiling ex') (attempts_made ex' primary prompt mdl))
        = replicate (ceiling ex') primary"
    by (simp add: am' comp_def map_replicate_const)
  have 4: "drop (ceiling ex') (attempts_made ex' primary prompt mdl)
        = try_providers ex' prompt mdl (fallbackOrder ex') (ceiling ex')"
    by (simp add: am')
  have 5: "0 < ceiling ex' \<and> fallbackOrder ex' \<noteq> [] \<longrightarrow>
         fst (attempts_made ex' primary prompt mdl ! ceiling ex') = hd (fallbackOrder ex')"
  proof
    assume a: "0 < ceiling ex' \<and> fallbackOrder ex' \<noteq> []"
    then obtain q qs where q: "fallbackOrder ex' = q # qs" by (cases "fallbackOrder ex'") auto
    from try_providers_hd [of ex' prompt mdl q qs "ceiling ex'"] a
    have ne: "try_providers ex' prompt mdl (q # qs) (ceiling ex') \<noteq> []"
      and h: "fst (hd (try_providers ex' prompt mdl (q # qs) (ceiling ex'))) = q" by auto
    have "attempts_made ex' primary prompt mdl ! ceiling ex'
        = try_providers ex' prompt mdl (q # qs) (ceiling ex') ! 0"
      by (simp add: am' q nth_append)
    with ne h q show "fst (attempts_made ex' primary prompt mdl ! ceiling ex') = hd (fallbackOrder ex')"
      by (simp add: hd_conv_nth)
  qed
  from 1 2 3 4 5 show ?thesis by blast
qed

theorem retries_stay_on_primary_witness:
  "attempts (callWithRetry flaky ''openai'' ''hi'' ''gpt-4o'') = 3
   \<and> usedProvider (callWithRetry flaky ''openai'' ''hi'' ''gpt-4o'') = ''openai''
   \<and> map fst (attempts_made down ''openai'' ''hi'' ''gpt-4o'')
       = [''openai'', ''openai'', ''openai'', ''anthropic'']"
proof -
  have a: "(2::nat) < ceiling flaky" by (simp add: flaky_def)
  have b: "\<forall>j<2. is_transient (transport flaky ''openai'' ''hi'' ''gpt-4o'' j)"
    by (simp add: flaky_def)
  have c: "transport flaky ''openai'' ''hi'' ''gpt-4o'' 2 = Served ''Done'' 12 30"
    by (simp add: flaky_def)
  have d: "\<forall>j<ceiling down. is_transient (transport down ''openai'' ''hi'' ''gpt-4o'' j)"
    by (simp add: down_def)
  have e: "map fst (attempts_made down ''openai'' ''hi'' ''gpt-4o'')
       = [''openai'', ''openai'', ''openai'', ''anthropic'']"
    by (simp add: attempts_made_def down_def Let_def numeral_3_eq_3)
  from retries_stay_on_primary [OF a b c d] e show ?thesis by simp
qed


end
